theory Spec2Isabelle
  imports Main
begin

section \<open>The stopwatch of \<open>src/cstop/core.py\<close>\<close>

text \<open>
  The program keeps a dictionary \<open>TIMERS\<close> of named timers and reads one key at a time.
  A timer stores the clock readings at which it was switched on and off; the time it has
  run is computed from these marks. This theory embeds the timer class \<open>SimpleTimer\<close>
  and the input loop of \<open>main\<close>. The rendering thread \<open>Monitor\<close>, the terminal
  output and the command line are not part of the model.
\<close>

subsection \<open>Clock readings\<close>

text \<open>
  A \<open>datetime\<close> has a resolution of one microsecond: a clock reading is the number of
  microseconds since some fixed instant. Every function that calls \<open>datetime.now()\<close>
  takes the reading as its argument \<open>now\<close>.
\<close>

type_synonym datetime = int

subsection \<open>SimpleTimer\<close>

record SimpleTimer =
  name :: string
  state_switches :: "datetime list"

definition new_timer :: "string \<Rightarrow> SimpleTimer" where
  "new_timer n = \<lparr>name = n, state_switches = []\<rparr>"

definition resume :: "datetime \<Rightarrow> SimpleTimer \<Rightarrow> SimpleTimer" where
  "resume now t =
     (if length (state_switches t) mod 2 = 0
      then t\<lparr>state_switches := state_switches t @ [now]\<rparr>
      else t)"

definition stop :: "datetime \<Rightarrow> SimpleTimer \<Rightarrow> SimpleTimer" where
  "stop now t =
     (if length (state_switches t) mod 2 = 1
      then t\<lparr>state_switches := state_switches t @ [now]\<rparr>
      else t)"

text \<open>The class body binds \<open>pause = stop\<close>.\<close>

definition pause :: "datetime \<Rightarrow> SimpleTimer \<Rightarrow> SimpleTimer" where
  "pause = stop"

text \<open>
  \<open>zip_longest(state_switches[0::2], state_switches[1::2])\<close>: the marks taken two at a
  time, a last start mark without an end mark paired with \<open>None\<close>.
\<close>

fun pairs :: "datetime list \<Rightarrow> (datetime \<times> datetime option) list" where
  "pairs [] = []"
| "pairs [start] = [(start, None)]"
| "pairs (start # fin # rest) = (start, Some fin) # pairs rest"

text \<open>
  The slices \<open>xs[0::2]\<close> (and \<open>xs[1::2]\<close>, the same slice of the tail) and
  \<open>itertools.zip_longest\<close>, to relate \<open>pairs\<close> to the expression of the source.
\<close>

fun every_second :: "'a list \<Rightarrow> 'a list" where
  "every_second [] = []"
| "every_second [x] = [x]"
| "every_second (x # y # xs) = x # every_second xs"

fun zip_longest :: "'a list \<Rightarrow> 'b list \<Rightarrow> ('a option \<times> 'b option) list" where
  "zip_longest [] [] = []"
| "zip_longest (x # xs) [] = (Some x, None) # zip_longest xs []"
| "zip_longest [] (y # ys) = (None, Some y) # zip_longest [] ys"
| "zip_longest (x # xs) (y # ys) = (Some x, Some y) # zip_longest xs ys"

text \<open>
  The body of the loop in \<open>seconds\<close>, on a running total in microseconds. The source
  adds the floating point value \<open>delta.total_seconds()\<close>; the model adds exactly. The
  two agree when every interval is a whole number of seconds; on fractions of a second
  the rounding of the floating point sum can make the source show one second less.
\<close>

definition add_pair :: "datetime \<Rightarrow> datetime \<times> datetime option \<Rightarrow> int \<Rightarrow> int" where
  "add_pair now p total_us =
     (case p of (start, fin) \<Rightarrow>
        (let real_end = (case fin of None \<Rightarrow> now | Some e \<Rightarrow> e)
         in total_us + (real_end - start)))"

text \<open>\<open>int(x)\<close> on a number of seconds given in microseconds: towards zero.\<close>

definition whole_seconds :: "int \<Rightarrow> int" where
  "whole_seconds us = (if 0 \<le> us then us div 1000000 else - ((- us) div 1000000))"

definition seconds :: "datetime \<Rightarrow> SimpleTimer \<Rightarrow> int" where
  "seconds now t = whole_seconds (fold (add_pair now) (pairs (state_switches t)) 0)"

text \<open>A timer is running when its last mark is a start mark.\<close>

definition running :: "SimpleTimer \<Rightarrow> bool" where
  "running t = (length (state_switches t) mod 2 = 1)"

subsection \<open>Keys\<close>

text \<open>
  A key is the string that \<open>getch\<close> returns, which is what \<open>sys.stdin.read(1)\<close>
  returned: a string of one character (or the empty string, when a read comes back empty
  and the terminal can still be restored). \<open>str.lower\<close> is modelled on the letters
  \<open>A\<close> to \<open>Z\<close>; no other character is turned into \<open>q\<close>, \<open>p\<close> or \<open>*\<close> by it.
\<close>

definition lower_char :: "char \<Rightarrow> char" where
  "lower_char c =
     (let n = (of_char c :: nat)
      in if 65 \<le> n \<and> n \<le> 90 then char_of (n + 32) else c)"

definition lower :: "string \<Rightarrow> string" where
  "lower s = map lower_char s"

text \<open>Python's truth value of \<open>last_active\<close>: \<open>None\<close> and the empty string are false.\<close>

fun truthy :: "string option \<Rightarrow> bool" where
  "truthy None = False"
| "truthy (Some s) = (s \<noteq> [])"

subsection \<open>Reading a key\<close>



subsection \<open>The state of the input loop\<close>

text \<open>
  \<open>TIMERS\<close> and \<open>GLOBALS['current_key']\<close> are module globals, \<open>last_active\<close> and
  \<open>paused\<close> are locals of \<open>main\<close>.
\<close>

record state =
  TIMERS :: "string \<rightharpoonup> SimpleTimer"
  current_key :: "string option"
  last_active :: "string option"
  paused :: bool

definition init :: state where
  "init = \<lparr>TIMERS = Map.empty, current_key = None, last_active = None, paused = False\<rparr>"

datatype error = KeyError | InputError

datatype control = Continue | Break

text \<open>\<open>TIMERS.pop(key, None)\<close>; the key may be \<open>None\<close>, which is never in the dictionary.\<close>

fun pop :: "(string \<rightharpoonup> SimpleTimer) \<Rightarrow> string option \<Rightarrow> (string \<rightharpoonup> SimpleTimer)" where
  "pop m None = m"
| "pop m (Some k) = m(k := None)"

text \<open>\<open>for timer in TIMERS.values(): timer.pause()\<close>, and the same with \<open>stop\<close>.\<close>

definition pause_all :: "datetime \<Rightarrow> (string \<rightharpoonup> SimpleTimer) \<Rightarrow> (string \<rightharpoonup> SimpleTimer)" where
  "pause_all now m = (\<lambda>k. map_option (pause now) (m k))"

definition stop_all :: "datetime \<Rightarrow> (string \<rightharpoonup> SimpleTimer) \<Rightarrow> (string \<rightharpoonup> SimpleTimer)" where
  "stop_all now m = (\<lambda>k. map_option (stop now) (m k))"

text \<open>
  \<open>for k, v in TIMERS.items(): if k == char: v.resume() else: v.pause()\<close>
\<close>

definition select_all :: "datetime \<Rightarrow> string \<Rightarrow> (string \<rightharpoonup> SimpleTimer) \<Rightarrow> (string \<rightharpoonup> SimpleTimer)" where
  "select_all now char m =
     (\<lambda>k. map_option (\<lambda>v. if k = char then resume now v else pause now v) (m k))"

text \<open>
  One pass through the body of \<open>while True\<close> after \<open>getch\<close> has returned \<open>char\<close>, with
  the clock at \<open>now\<close>. The result says whether the loop goes on (\<open>continue\<close>, or the end
  of the body) or is left (\<open>break\<close>); \<open>TIMERS[last_active]\<close> raises \<open>KeyError\<close> on a
  missing key.
\<close>

definition loop_body :: "datetime \<Rightarrow> string \<Rightarrow> state \<Rightarrow> error + (control \<times> state)" where
  "loop_body now char s =
     (if lower char = ''q'' then Inr (Break, s\<lparr>current_key := None\<rparr>)
      else if lower char = ''*'' then
        Inr (Continue, s\<lparr>TIMERS := pop (TIMERS s) (last_active s), last_active := None\<rparr>)
      else if lower char = ''p'' then
        (if truthy (last_active s) then
           (if paused s then
              (case last_active s of
                 None \<Rightarrow> Inl KeyError
               | Some k \<Rightarrow>
                   (case TIMERS s k of
                      None \<Rightarrow> Inl KeyError
                    | Some t \<Rightarrow>
                        Inr (Continue,
                             s\<lparr>TIMERS := (TIMERS s)(k \<mapsto> resume now t),
                               paused := False,
                               current_key := last_active s\<rparr>)))
            else
              Inr (Continue,
                   s\<lparr>TIMERS := pause_all now (TIMERS s), paused := True, current_key := None\<rparr>))
         else Inr (Continue, s))
      else
        (let s1 = s\<lparr>last_active := Some char, current_key := Some char\<rparr>;
             s2 = (if TIMERS s1 char = None
                   then s1\<lparr>TIMERS := (TIMERS s1)(char \<mapsto> new_timer char)\<rparr>
                   else s1)
         in Inr (Continue, s2\<lparr>TIMERS := select_all now char (TIMERS s2)\<rparr>)))"

subsection \<open>The input loop\<close>

text \<open>
  The loop consumes what the terminal supplies: a list of events, each the clock reading
  while the key is handled and the result of \<open>getch\<close> (\<open>None\<close> when \<open>getch\<close> raises,
  which \<open>main\<close> does not catch). After the last event of the list the loop is waiting
  in \<open>getch\<close>: the outcome \<open>Running\<close>. \<open>Exited\<close> is the loop left by \<open>break\<close>,
  \<open>Raised\<close> an exception that ends \<open>main\<close>.
\<close>

type_synonym event = "datetime \<times> string option"

datatype outcome =
    is_Running: Running (outcome_state: state)
  | is_Exited: Exited (outcome_state: state)
  | is_Raised: Raised (raised_error: error) (outcome_state: state)

fun main_loop :: "event list \<Rightarrow> state \<Rightarrow> outcome" where
  "main_loop [] s = Running s"
| "main_loop ((now, None) # evs) s = Raised InputError s"
| "main_loop ((now, Some char) # evs) s =
     (case loop_body now char s of
        Inl e \<Rightarrow> Raised e s
      | Inr (Break, s') \<Rightarrow> Exited s'
      | Inr (Continue, s') \<Rightarrow> main_loop evs s')"

text \<open>
  After the loop: \<open>for timer in TIMERS.values(): timer.stop()\<close>, with the clock at
  \<open>now\<close>. (\<open>join\<close> does nothing on a \<open>SimpleTimer\<close>.)
\<close>

definition shutdown :: "datetime \<Rightarrow> state \<Rightarrow> state" where
  "shutdown now s = s\<lparr>TIMERS := stop_all now (TIMERS s)\<rparr>"

text \<open>The time shown for a label: \<open>timer.seconds\<close> of its entry, if there is one.\<close>

definition elapsed :: "datetime \<Rightarrow> state \<Rightarrow> string \<Rightarrow> int option" where
  "elapsed now s k = map_option (seconds now) (TIMERS s k)"

text \<open>One second, in microseconds.\<close>

definition sec :: int where
  "sec = 1000000"

subsection \<open>Predicates on the state\<close>

text \<open>
  At most one entry of \<open>TIMERS\<close> is running, and a running entry is the one that
  \<open>GLOBALS['current_key']\<close> names.
\<close>

definition at_most_one_running :: "state \<Rightarrow> bool" where
  "at_most_one_running s =
     (\<forall>k k' t t'. TIMERS s k = Some t \<and> running t \<and> TIMERS s k' = Some t' \<and> running t'
        \<longrightarrow> k = k')"

definition running_is_current :: "state \<Rightarrow> bool" where
  "running_is_current s =
     (\<forall>k t. TIMERS s k = Some t \<and> running t \<longrightarrow> current_key s = Some k)"

definition exclusive :: "state \<Rightarrow> bool" where
  "exclusive s = (at_most_one_running s \<and> running_is_current s)"

text \<open>
  What the loop maintains between two keys: a running timer is the current key and the
  remembered one (when a key is remembered), and a remembered key has an entry.
\<close>

definition loop_inv :: "state \<Rightarrow> bool" where
  "loop_inv s =
     ((\<forall>k t. TIMERS s k = Some t \<and> running t
         \<longrightarrow> current_key s = Some k \<and> (last_active s = None \<or> last_active s = Some k))
      \<and> (\<forall>k. last_active s = Some k \<longrightarrow> TIMERS s k \<noteq> None))"

section \<open>Basic facts\<close>

lemma lower_star [simp]: "lower ''*'' = ''*''"
  by (simp add: lower_def lower_char_def)

lemma lower_p [simp]: "lower ''p'' = ''p''"
  by (simp add: lower_def lower_char_def)

lemma lower_q [simp]: "lower ''q'' = ''q''"
  by (simp add: lower_def lower_char_def)

subsection \<open>Upper and lower case\<close>

lemma lower_char_eq:
  assumes "of_char d = (n::nat)" "97 \<le> n" "n \<le> 122"
  shows "lower_char c = d \<longleftrightarrow> c = d \<or> c = char_of (n - 32)"
proof -
  have d: "d = char_of n" using assms(1) by (metis char_of_char)
  show ?thesis
  proof (cases "65 \<le> (of_char c :: nat) \<and> (of_char c :: nat) \<le> 90")
    case True
    have "char_of (of_char c + 32 :: nat) = d \<longleftrightarrow> c = char_of (n - 32)"
    proof
      assume "char_of (of_char c + 32 :: nat) = d"
      then have "(of_char (char_of (of_char c + 32 :: nat)) :: nat) = n" using assms(1) by simp
      then have "(of_char c + 32 :: nat) mod 256 = n" by (simp add: of_char_of)
      then have "(of_char c :: nat) = n - 32" using True by simp
      then show "c = char_of (n - 32)" by (metis char_of_char)
    next
      assume "c = char_of (n - 32)"
      then have "(of_char c :: nat) = (n - 32) mod 256" by (simp add: of_char_of)
      then have "(of_char c :: nat) + 32 = n" using assms by simp
      then show "char_of (of_char c + 32 :: nat) = d" using d by simp
    qed
    moreover have "c \<noteq> d" using True assms by auto
    ultimately show ?thesis using True by (simp add: lower_char_def)
  next
    case False
    have "c \<noteq> char_of (n - 32)"
    proof
      assume "c = char_of (n - 32)"
      then have "(of_char c :: nat) = (n - 32) mod 256" by (simp add: of_char_of)
      then show False using False assms by (simp, arith)
    qed
    then show ?thesis using False by (auto simp add: lower_char_def Let_def)
  qed
qed

lemma lower_eq_q: "lower k = ''q'' \<longleftrightarrow> k = ''q'' \<or> k = ''Q''"
proof -
  have "lower_char c = CHR ''q'' \<longleftrightarrow> c = CHR ''q'' \<or> c = CHR ''Q''" for c
  proof -
    have "char_of (81::nat) = CHR ''Q''" by code_simp
    then show ?thesis using lower_char_eq [of "CHR ''q''" 113 c] by simp
  qed
  then show ?thesis by (cases k) (auto simp add: lower_def)
qed


lemmas run_defs =
  loop_body_def lower_def lower_char_def init_def select_all_def pause_all_def stop_all_def
  shutdown_def new_timer_def resume_def stop_def pause_def elapsed_def seconds_def
  add_pair_def whole_seconds_def sec_def running_def

subsection \<open>Timers\<close>

lemma running_resume [simp]: "running (resume now t)"
  by (simp add: running_def resume_def) presburger

lemma not_running_stop [simp]: "\<not> running (stop now t)"
  by (simp add: running_def stop_def) presburger

lemma not_running_pause [simp]: "\<not> running (pause now t)"
  by (simp add: pause_def)

text \<open>
  \<open>pairs\<close> is the \<open>zip_longest\<close> of the two slices; the start of a pair is never
  \<open>None\<close>, so \<open>real_end - start\<close> is always defined.
\<close>

lemma every_second_Cons: "every_second (x # xs) = x # every_second (tl xs)"
  by (cases xs) simp_all

lemma pairs_zip_longest:
  "map (\<lambda>(start, fin). (Some start, fin)) (pairs ss)
     = zip_longest (every_second ss) (every_second (tl ss))"
  by (induction ss rule: pairs.induct) (simp_all add: every_second_Cons)

subsection \<open>The loop invariant\<close>

lemma loop_inv_init: "loop_inv init"
  by (simp add: loop_inv_def init_def)

lemma loop_inv_exclusive: "loop_inv s \<Longrightarrow> exclusive s"
  unfolding loop_inv_def exclusive_def at_most_one_running_def running_is_current_def
  by (metis option.inject)

lemma loop_body_no_error:
  assumes "loop_inv s"
  shows "loop_body now char s \<noteq> Inl e"
  using assms
  by (auto simp add: loop_body_def loop_inv_def Let_def split: option.splits)

lemma loop_inv_step:
  assumes "loop_inv s" and "loop_body now char s = Inr (Continue, s')"
  shows "loop_inv s'"
  using assms
  by (auto simp add: loop_body_def loop_inv_def Let_def pause_all_def select_all_def
      split: option.splits if_splits)

lemma loop_body_break:
  assumes "loop_body now char s = Inr (Break, s')"
  shows "s' = s\<lparr>current_key := None\<rparr>"
  using assms
  by (auto simp add: loop_body_def Let_def split: option.splits if_splits)

text \<open>The loop is left by \<open>break\<close> on the keys \<open>q\<close> and \<open>Q\<close>, and on no other.\<close>

lemma loop_body_break_iff:
  "(\<exists>s'. loop_body now char s = Inr (Break, s')) \<longleftrightarrow> char = ''q'' \<or> char = ''Q''"
  by (auto simp add: loop_body_def Let_def lower_eq_q split: option.splits if_splits)

lemma main_loop_append:
  "main_loop evs s = Running s1 \<Longrightarrow> main_loop (evs @ evs') s = main_loop evs' s1"
proof (induction evs s rule: main_loop.induct)
  case (1 s)
  then show ?case by simp
next
  case (2 now evs s)
  then show ?case by simp
next
  case (3 now char evs s)
  then show ?case
    by (auto split: sum.splits control.splits prod.splits)
qed

lemma main_loop_Running_inv:
  "loop_inv s \<Longrightarrow> main_loop evs s = Running s' \<Longrightarrow> loop_inv s'"
proof (induction evs s rule: main_loop.induct)
  case (3 now char evs s)
  then show ?case
    by (auto split: sum.splits control.splits prod.splits dest: loop_inv_step)
qed simp_all

lemma main_loop_Raised_inv:
  "loop_inv s \<Longrightarrow> main_loop evs s = Raised e s' \<Longrightarrow> e = InputError \<and> loop_inv s'"
proof (induction evs s rule: main_loop.induct)
  case (3 now char evs s)
  then show ?case
    by (auto split: sum.splits control.splits prod.splits dest: loop_inv_step simp add: loop_body_no_error)
qed simp_all

lemma main_loop_Exited_inv:
  "loop_inv s \<Longrightarrow> main_loop evs s = Exited s' \<Longrightarrow>
     (\<exists>s1. loop_inv s1 \<and> s' = s1\<lparr>current_key := None\<rparr>)"
proof (induction evs s rule: main_loop.induct)
  case (3 now char evs s)
  then show ?case
    by (auto split: sum.splits control.splits prod.splits dest: loop_inv_step loop_body_break)
qed simp_all

lemma at_most_one_running_clear:
  "loop_inv s \<Longrightarrow> at_most_one_running (s\<lparr>current_key := None\<rparr>)"
  using loop_inv_exclusive [of s]
  by (simp add: exclusive_def at_most_one_running_def)

lemma exclusive_shutdown: "exclusive (shutdown now s)"
  by (auto simp add: exclusive_def at_most_one_running_def running_is_current_def shutdown_def stop_all_def)

subsection \<open>Reading a key\<close>


section \<open>Properties of the timers and of the input loop\<close>

text \<open>
  C1, as amended. While the loop goes on reading, that is after any sequence of keys other
  than \<open>q\<close> and \<open>Q\<close>, at most one timer of \<open>TIMERS\<close> is running (its list of marks
  has odd length), and a running timer is the one named by \<open>GLOBALS['current_key']\<close>.
  After \<open>q\<close> or \<open>Q\<close> at most one timer is running still, but \<open>current_key\<close> has been
  set to \<open>None\<close> while that timer keeps running; the loop that stops every timer after
  the input loop makes both parts hold again.
\<close>

theorem C1_exclusive_while_reading:
  "(main_loop evs init = Running s \<longrightarrow> exclusive s) \<and>
   (main_loop evs init = Exited s \<longrightarrow> at_most_one_running s \<and> exclusive (shutdown now s))"
  using main_loop_Running_inv [OF loop_inv_init, of evs s]
        main_loop_Exited_inv [OF loop_inv_init, of evs s]
  by (auto simp add: loop_inv_exclusive at_most_one_running_clear exclusive_shutdown)

text \<open>
  C1 as stated fails after \<open>a\<close>, \<open>q\<close>: the input loop has handled \<open>q\<close> and is left,
  timer \<open>a\<close> is running, and \<open>current_key\<close> is \<open>None\<close>.
\<close>

theorem C1_exclusive_after_quit_counterexample:
  "is_Exited (main_loop [(0, Some ''a''), (sec, Some ''q'')] init)
   \<and> map_option running (TIMERS (outcome_state (main_loop [(0, Some ''a''), (sec, Some ''q'')] init)) ''a'') = Some True
   \<and> current_key (outcome_state (main_loop [(0, Some ''a''), (sec, Some ''q'')] init)) = None
   \<and> \<not> exclusive (outcome_state (main_loop [(0, Some ''a''), (sec, Some ''q'')] init))"
  by (simp add: run_defs exclusive_def running_is_current_def)

theorem C1_exclusive_while_reading_witness:
  "is_Running (main_loop [(0, Some ''a''), (sec, Some ''b'')] init)
   \<and> exclusive (outcome_state (main_loop [(0, Some ''a''), (sec, Some ''b'')] init))
   \<and> is_Exited (main_loop [(0, Some ''a''), (sec, Some ''q'')] init)
   \<and> at_most_one_running (outcome_state (main_loop [(0, Some ''a''), (sec, Some ''q'')] init))
   \<and> exclusive (shutdown sec (outcome_state (main_loop [(0, Some ''a''), (sec, Some ''q'')] init)))"
proof -
  let ?r = "main_loop [(0, Some ''a''), (sec, Some ''b'')] init"
  let ?q = "main_loop [(0, Some ''a''), (sec, Some ''q'')] init"
  have r: "is_Running ?r" by (simp add: run_defs)
  have q: "is_Exited ?q" by (simp add: run_defs)
  from r have "?r = Running (outcome_state ?r)" by (cases ?r) simp_all
  with C1_exclusive_while_reading [of "[(0, Some ''a''), (sec, Some ''b'')]" "outcome_state ?r" sec]
  have 1: "exclusive (outcome_state ?r)" by blast
  from q have "?q = Exited (outcome_state ?q)" by (cases ?q) simp_all
  with C1_exclusive_while_reading [of "[(0, Some ''a''), (sec, Some ''q'')]" "outcome_state ?q" sec]
  have 2: "at_most_one_running (outcome_state ?q) \<and> exclusive (shutdown sec (outcome_state ?q))" by blast
  from r q 1 2 show ?thesis by blast
qed

text \<open>
  C2 does not hold of the code. Selecting a key leaves \<open>paused\<close> as it is. After
  \<open>a\<close>, \<open>p\<close>, \<open>b\<close> the flag is still set, so a following \<open>p\<close> takes the resume
  branch: timer \<open>b\<close> keeps running, \<open>paused\<close> becomes false and \<open>current_key\<close> stays
  \<open>b\<close>.
\<close>

theorem C2_pause_after_reselect:
  "paused (outcome_state (main_loop
      [(0, Some ''a''), (sec, Some ''p''), (2 * sec, Some ''b'')] init))
   \<and> is_Running (main_loop
      [(0, Some ''a''), (sec, Some ''p''), (2 * sec, Some ''b''), (3 * sec, Some ''p'')] init)
   \<and> map_option running (TIMERS (outcome_state (main_loop
      [(0, Some ''a''), (sec, Some ''p''), (2 * sec, Some ''b''), (3 * sec, Some ''p'')] init)) ''b'')
       = Some True
   \<and> \<not> paused (outcome_state (main_loop
      [(0, Some ''a''), (sec, Some ''p''), (2 * sec, Some ''b''), (3 * sec, Some ''p'')] init))
   \<and> current_key (outcome_state (main_loop
      [(0, Some ''a''), (sec, Some ''p''), (2 * sec, Some ''b''), (3 * sec, Some ''p'')] init))
       = Some ''b''"
  by (simp add: run_defs)

text \<open>
  C3 does not hold of the code. The \<open>*\<close> branch removes the timer and forgets
  \<open>last_active\<close>, but leaves \<open>GLOBALS['current_key']\<close>: after \<open>a\<close>, \<open>*\<close> the current key
  is \<open>a\<close> and \<open>TIMERS\<close> has no entry \<open>a\<close>.
\<close>

theorem C3_current_key_after_star:
  "is_Running (main_loop [(0, Some ''a''), (sec, Some ''*'')] init)
   \<and> current_key (outcome_state (main_loop [(0, Some ''a''), (sec, Some ''*'')] init)) = Some ''a''
   \<and> TIMERS (outcome_state (main_loop [(0, Some ''a''), (sec, Some ''*'')] init)) ''a'' = None"
  by (simp add: run_defs)

text \<open>
  C4, as amended. \<open>*\<close> removes the timer that \<open>last_active\<close> names, not the one that
  \<open>current_key\<close> names. When \<open>last_active\<close> is \<open>None\<close> the key changes nothing. A pause
  (\<open>p\<close> or \<open>P\<close> with a remembered key, not paused) clears \<open>current_key\<close> and keeps
  \<open>last_active\<close>: a \<open>*\<close> that follows removes the remembered timer with its marks, and
  leaves every other timer as the pause left it.
\<close>

theorem C4_star_removes_last_active:
  "(last_active s = None \<longrightarrow> loop_body now ''*'' s = Inr (Continue, s)) \<and>
   (last_active s = Some k \<and> k \<noteq> [] \<and> \<not> paused s \<and> lower c = ''p'' \<longrightarrow>
      (\<exists>s1 s2. loop_body t1 c s = Inr (Continue, s1)
         \<and> current_key s1 = None \<and> last_active s1 = Some k
         \<and> loop_body t2 ''*'' s1 = Inr (Continue, s2)
         \<and> TIMERS s2 k = None
         \<and> (\<forall>k'. k' \<noteq> k \<longrightarrow> TIMERS s2 k' = map_option (pause t1) (TIMERS s k'))))"
  by (auto simp add: loop_body_def pause_all_def)

text \<open>
  C4 as stated fails after \<open>a\<close>, \<open>p\<close>: \<open>current_key\<close> is \<open>None\<close>, timer \<open>a\<close> holds its
  two marks, and \<open>*\<close> removes it.
\<close>

theorem C4_star_after_pause_counterexample:
  "is_Running (main_loop [(0, Some ''a''), (sec, Some ''p'')] init)
   \<and> current_key (outcome_state (main_loop [(0, Some ''a''), (sec, Some ''p'')] init)) = None
   \<and> map_option state_switches
        (TIMERS (outcome_state (main_loop [(0, Some ''a''), (sec, Some ''p'')] init)) ''a'')
       = Some [0, sec]
   \<and> is_Running (main_loop [(0, Some ''a''), (sec, Some ''p''), (2 * sec, Some ''*'')] init)
   \<and> TIMERS (outcome_state
        (main_loop [(0, Some ''a''), (sec, Some ''p''), (2 * sec, Some ''*'')] init)) ''a'' = None"
  by (simp add: run_defs)

theorem C4_star_removes_last_active_witness:
  "last_active init = None \<and> loop_body 0 ''*'' init = Inr (Continue, init)
   \<and> (\<exists>s1 s2. loop_body 5 ''p'' (outcome_state (main_loop [(0, Some ''a''), (1, Some ''b'')] init))
                  = Inr (Continue, s1)
         \<and> loop_body 6 ''*'' s1 = Inr (Continue, s2)
         \<and> TIMERS s2 ''b'' = None
         \<and> TIMERS s2 ''a''
            = map_option (pause 5)
                (TIMERS (outcome_state (main_loop [(0, Some ''a''), (1, Some ''b'')] init)) ''a''))"
proof -
  let ?s = "outcome_state (main_loop [(0, Some ''a''), (1, Some ''b'')] init)"
  have h: "last_active ?s = Some ''b'' \<and> ''b'' \<noteq> [] \<and> \<not> paused ?s \<and> lower ''p'' = ''p''"
    by (simp add: run_defs)
  have i: "last_active init = None" by (simp add: init_def)
  from C4_star_removes_last_active [of init 0 "''b''" "''p''" 5 6] i
  have 1: "loop_body 0 ''*'' init = Inr (Continue, init)" by blast
  from C4_star_removes_last_active [of ?s 0 "''b''" "''p''" 5 6] h
  obtain s1 s2 where "loop_body 5 ''p'' ?s = Inr (Continue, s1)"
    "loop_body 6 ''*'' s1 = Inr (Continue, s2)" "TIMERS s2 ''b'' = None"
    "\<forall>k'. k' \<noteq> ''b'' \<longrightarrow> TIMERS s2 k' = map_option (pause 5) (TIMERS ?s k')"
    by blast
  then have 2: "\<exists>s1 s2. loop_body 5 ''p'' ?s = Inr (Continue, s1)
         \<and> loop_body 6 ''*'' s1 = Inr (Continue, s2)
         \<and> TIMERS s2 ''b'' = None
         \<and> TIMERS s2 ''a'' = map_option (pause 5) (TIMERS ?s ''a'')"
    by (intro exI [of _ s1] exI [of _ s2]) simp
  from i 1 2 show ?thesis by blast
qed



text \<open>
  C6. From the empty registry: key \<open>m\<close>; two seconds later \<open>p\<close> (pause); five seconds
  later \<open>p\<close> (resume); one second later timer \<open>m\<close> shows 3 seconds. The time spent
  paused is not counted.
\<close>

theorem C6_pause_resume_round_trip:
  "elapsed (t0 + 8 * sec)
     (outcome_state (main_loop
        [(t0, Some ''m''), (t0 + 2 * sec, Some ''p''), (t0 + 7 * sec, Some ''p'')] init))
     ''m'' = Some 3"
  by (simp add: run_defs)

text \<open>
  C7. The keys \<open>a\<close>, \<open>b\<close>, \<open>a\<close>, \<open>q\<close>, one second apart: the input loop is left by
  \<open>break\<close>, and once the timers have been stopped (the clock still at the reading of
  \<open>q\<close>) timer \<open>a\<close> shows 2 seconds and timer \<open>b\<close> shows 1 second, whenever they are read.
\<close>

theorem C7_end_to_end:
  "is_Exited (main_loop
      [(t0, Some ''a''), (t0 + sec, Some ''b''), (t0 + 2 * sec, Some ''a''),
       (t0 + 3 * sec, Some ''q'')] init)
   \<and> elapsed t (shutdown (t0 + 3 * sec) (outcome_state (main_loop
      [(t0, Some ''a''), (t0 + sec, Some ''b''), (t0 + 2 * sec, Some ''a''),
       (t0 + 3 * sec, Some ''q'')] init))) ''a'' = Some 2
   \<and> elapsed t (shutdown (t0 + 3 * sec) (outcome_state (main_loop
      [(t0, Some ''a''), (t0 + sec, Some ''b''), (t0 + 2 * sec, Some ''a''),
       (t0 + 3 * sec, Some ''q'')] init))) ''b'' = Some 1"
  by (simp add: run_defs)

text \<open>
  C8. On a timer with an even number of marks (a stopped timer), \<open>resume\<close> called twice
  in a row appends exactly one start mark: the timer is running, with one mark more than
  before.
\<close>

theorem C8_resume_twice:
  "length (state_switches t) mod 2 = 0 \<Longrightarrow>
     state_switches (resume n2 (resume n1 t)) = state_switches t @ [n1]
     \<and> running (resume n2 (resume n1 t))
     \<and> length (state_switches (resume n2 (resume n1 t))) = length (state_switches t) + 1"
  by (simp add: resume_def running_def) presburger

theorem C8_resume_twice_witness:
  "length (state_switches (new_timer ''x'')) mod 2 = 0
   \<and> state_switches (resume 7 (resume 5 (new_timer ''x''))) = [5]
   \<and> running (resume 7 (resume 5 (new_timer ''x'')))"
  using C8_resume_twice [of "new_timer ''x''" 7 5]
  by (simp add: new_timer_def)

text \<open>
  C9. Whatever the keys and the failures of \<open>getch\<close>, the input loop never ends in a
  \<open>KeyError\<close>; and in every state in which it reads the next key, a remembered
  non-empty \<open>last_active\<close> has an entry in \<open>TIMERS\<close>, so that the loop body does not
  raise \<open>KeyError\<close> on any key.
\<close>

theorem C9_last_active_has_entry:
  "main_loop evs init \<noteq> Raised KeyError s \<and>
   (main_loop evs init = Running s \<longrightarrow>
      (last_active s = Some k \<and> k \<noteq> [] \<longrightarrow> TIMERS s k \<noteq> None)
      \<and> loop_body now char s \<noteq> Inl KeyError)"
proof -
  have "main_loop evs init \<noteq> Raised KeyError s"
    using main_loop_Raised_inv [OF loop_inv_init, of evs KeyError s] by auto
  moreover have "loop_inv s" if "main_loop evs init = Running s"
    using that main_loop_Running_inv [OF loop_inv_init] by blast
  ultimately show ?thesis
    by (auto simp add: loop_body_no_error) (auto simp add: loop_inv_def)
qed

theorem C9_last_active_has_entry_witness:
  "is_Running (main_loop [(0, Some ''a''), (1, Some ''p'')] init)
   \<and> last_active (outcome_state (main_loop [(0, Some ''a''), (1, Some ''p'')] init)) = Some ''a''
   \<and> paused (outcome_state (main_loop [(0, Some ''a''), (1, Some ''p'')] init))
   \<and> TIMERS (outcome_state (main_loop [(0, Some ''a''), (1, Some ''p'')] init)) ''a'' \<noteq> None
   \<and> loop_body 2 ''p'' (outcome_state (main_loop [(0, Some ''a''), (1, Some ''p'')] init))
       \<noteq> Inl KeyError"
proof -
  let ?r = "main_loop [(0, Some ''a''), (1, Some ''p'')] init"
  have r: "is_Running ?r \<and> last_active (outcome_state ?r) = Some ''a'' \<and> paused (outcome_state ?r)"
    by (simp add: run_defs)
  then have "?r = Running (outcome_state ?r)" by (cases ?r) simp_all
  with C9_last_active_has_entry [of "[(0, Some ''a''), (1, Some ''p'')]" "outcome_state ?r" "''a''" 2 "''p''"] r
  show ?thesis by simp
qed

text \<open>
  C10. After any history that leaves the loop reading (from any starting state), the key
  \<open>*\<close> leaves the loop reading, and every entry of \<open>TIMERS\<close> other than the one named
  by \<open>last_active\<close> is the same before and after, and so is the time it shows.
\<close>

theorem C10_star_frame:
  "main_loop evs s0 = Running s \<Longrightarrow>
     (\<exists>s'. main_loop (evs @ [(now, Some ''*'')]) s0 = Running s'
        \<and> (\<forall>k. last_active s \<noteq> Some k \<longrightarrow>
              TIMERS s' k = TIMERS s k \<and> elapsed t s' k = elapsed t s k))"
  by (cases "last_active s") (auto simp add: main_loop_append loop_body_def elapsed_def)

theorem C10_star_frame_witness:
  "is_Running (main_loop [(0, Some ''a''), (sec, Some ''b'')] init)
   \<and> last_active (outcome_state (main_loop [(0, Some ''a''), (sec, Some ''b'')] init)) \<noteq> Some ''a''
   \<and> map_option state_switches
       (TIMERS (outcome_state (main_loop ([(0, Some ''a''), (sec, Some ''b'')] @ [(2 * sec, Some ''*'')]) init)) ''a'')
       = Some [0, sec]
   \<and> elapsed (9 * sec)
       (outcome_state (main_loop ([(0, Some ''a''), (sec, Some ''b'')] @ [(2 * sec, Some ''*'')]) init)) ''a''
       = Some 1"
proof -
  let ?r = "main_loop [(0, Some ''a''), (sec, Some ''b'')] init"
  have r: "is_Running ?r \<and> last_active (outcome_state ?r) \<noteq> Some ''a''"
    by (simp add: run_defs)
  have v: "map_option state_switches (TIMERS (outcome_state ?r) ''a'') = Some [0, sec]
     \<and> elapsed (9 * sec) (outcome_state ?r) ''a'' = Some 1"
    by (simp add: run_defs)
  from r have "?r = Running (outcome_state ?r)" by (cases ?r) simp_all
  from C10_star_frame [OF this, of "2 * sec" "9 * sec"]
  obtain s' where s': "main_loop ([(0, Some ''a''), (sec, Some ''b'')] @ [(2 * sec, Some ''*'')]) init = Running s'"
    and f: "\<forall>k. last_active (outcome_state ?r) \<noteq> Some k \<longrightarrow>
              TIMERS s' k = TIMERS (outcome_state ?r) k
              \<and> elapsed (9 * sec) s' k = elapsed (9 * sec) (outcome_state ?r) k"
    by blast
  from f r have "TIMERS s' ''a'' = TIMERS (outcome_state ?r) ''a''
     \<and> elapsed (9 * sec) s' ''a'' = elapsed (9 * sec) (outcome_state ?r) ''a''" by blast
  with v s' r show ?thesis by simp
qed

end
